theory Spec2Isabelle
  imports Main "HOL-Library.Word"
begin

section \<open>The relay server of source-chat-relay (package relay, relay.go)\<close>

text \<open>
  The relay keeps a registry of client connections, authenticates each one against
  an identity store, and fans every routed message out to the mailboxes of the other
  clients whose receive channels meet the message's target channels.

  The goroutines of the source are modelled as operations on one explicit state;
  each operation (one frame handled, one message routed) runs to completion.
  A Go panic is a value of type \<open>panic\<close>, returned as \<open>Inl\<close>.
\<close>

subsection \<open>Bytes, channels and transports\<close>

type_synonym bytes = "8 word list"

type_synonym ptr = nat

datatype panic = SendOnClosedChannel | CloseOfClosedChannel | NilDereference

text \<open>
  A Go channel of byte frames, \<open>chan []byte\<close>. \<open>queue\<close> holds the frames the channel
  has accepted, oldest first. \<open>room\<close> is the number of further sends the channel takes
  without blocking at this moment: its free buffer slots, and for the unbuffered
  \<open>make(chan []byte)\<close> of \<open>ProcessConnections\<close> 1 while \<open>ListenClientSend\<close> waits
  in its receive and 0 otherwise.
\<close>

record chan =
  queue :: "bytes list"
  room :: nat
  closed :: bool

definition make_chan :: chan where
  "make_chan = \<lparr>queue = [], room = 0, closed = False\<rparr>"

text \<open>
  \<open>select { case ch <- v: default: }\<close>: a send that never blocks. \<open>Some\<close> is the
  channel after the send, \<open>None\<close> the \<open>default\<close> branch. A send on a closed
  channel panics, in a \<open>select\<close> too.
\<close>

definition send_nb :: "chan \<Rightarrow> bytes \<Rightarrow> panic + chan option" where
  "send_nb ch v =
     (if closed ch then Inl SendOnClosedChannel
      else if 0 < room ch then Inr (Some (ch\<lparr>queue := queue ch @ [v], room := room ch - 1\<rparr>))
      else Inr None)"

text \<open>\<open>close(ch)\<close>; closing a closed channel panics.\<close>

definition close_chan :: "chan \<Rightarrow> panic + chan" where
  "close_chan ch = (if closed ch then Inl CloseOfClosedChannel else Inr (ch\<lparr>closed := True\<rparr>))"

text \<open>
  A \<open>net.Conn\<close>: the frames written to it while it was open, and whether it has been
  closed. \<open>Write\<close> on a closed connection returns an error, which relay.go ignores
  everywhere, and transmits nothing.
\<close>

record conn =
  written :: "bytes list"
  conn_closed :: bool

definition conn_Write :: "conn \<Rightarrow> bytes \<Rightarrow> conn" where
  "conn_Write k b = (if conn_closed k then k else k\<lparr>written := written k @ [b]\<rparr>)"

definition conn_Close :: "conn \<Rightarrow> conn" where
  "conn_Close k = k\<lparr>conn_closed := True\<rparr>"

subsection \<open>Package protocol: messages\<close>

text \<open>
  Modelled from the spec: the message types of package protocol, whose declarations
  are not among the sources. \<open>MessageOther\<close> stands for every other declared type.
\<close>

datatype MessageType = MessageAuthenticate | MessageChat | MessageEvent | MessageOther nat

text \<open>
  Modelled from the spec: the common header of package protocol (type tag, author
  identity id, author hostname).
\<close>

record BaseMessage =
  Type :: MessageType
  SenderID :: string
  base_Hostname :: string

text \<open>Modelled from the spec: the decoded Authenticate frame, \<open>{token, hostname}\<close>.\<close>

record AuthenticateMessage =
  auth_Base :: BaseMessage
  Token :: string
  auth_Hostname :: string

text \<open>Modelled from the spec: the two authentication responses.\<close>

datatype AuthenticateResponse = AuthenticateSuccess | AuthenticateDenied

text \<open>
  Modelled from the spec: a Deliverable of package protocol, the common header plus
  the type-specific payload. \<open>Content\<close> is the payload text the filter reads,
  \<open>Rest\<close> the other payload bytes.
\<close>

record Deliverable =
  Base :: BaseMessage
  Content :: string
  Rest :: bytes

text \<open>Modelled from the spec: \<open>Author()\<close> is the author identity id of the header.\<close>

definition Author :: "Deliverable \<Rightarrow> string" where
  "Author m = SenderID (Base m)"

subsection \<open>Package entity: the identity store\<close>

text \<open>
  Modelled from the spec: the identity record of package entity (\<open>id\<close>,
  \<open>display_name\<close>, \<open>receive_channels\<close>, \<open>send_channels\<close>).
\<close>

record Entity =
  ent_ID :: string
  DisplayName :: string
  ReceiveChannels :: "int list"
  SendChannels :: "int list"

text \<open>
  Modelled from the spec: the errors of the identity store, \<open>NotFound\<close>
  (\<open>sql.ErrNoRows\<close> in relay.go) and \<open>StoreError\<close> (any other error).
\<close>

datatype store_error = ErrNoRows | ErrStore

text \<open>
  Modelled from the spec: the identity store behind package entity. \<open>rows\<close> are the
  stored records by id. The store can fail: \<open>get_fault\<close> gives the ids whose lookup
  fails with a store error, each with the best-effort record the lookup still obtains;
  \<open>insert_fault\<close> and \<open>update_fault\<close> give the ids whose insert and whose display-name
  update fail.
\<close>

record db =
  rows :: "string \<rightharpoonup> Entity"
  get_fault :: "string \<rightharpoonup> Entity"
  insert_fault :: "string \<Rightarrow> bool"
  update_fault :: "string \<Rightarrow> bool"

text \<open>
  Modelled from the spec: \<open>entity.GetEntity\<close>, \<open>get(id) -> Record | NotFound | StoreError\<close>,
  as the Go pair of a record pointer and an error.
\<close>

definition GetEntity :: "db \<Rightarrow> string \<Rightarrow> Entity option \<times> store_error option" where
  "GetEntity d i =
     (case get_fault d i of
        Some e \<Rightarrow> (Some e, Some ErrStore)
      | None \<Rightarrow>
          (case rows d i of
             Some e \<Rightarrow> (Some e, None)
           | None \<Rightarrow> (None, Some ErrNoRows)))"

text \<open>Modelled from the spec: \<open>Entity.Insert\<close>, \<open>insert(Record) -> Ok | StoreError\<close>.\<close>

definition Insert :: "Entity \<Rightarrow> db \<Rightarrow> db \<times> store_error option" where
  "Insert e d =
     (if insert_fault d (ent_ID e) then (d, Some ErrStore)
      else (d\<lparr>rows := (rows d)(ent_ID e \<mapsto> e)\<rparr>, None))"

text \<open>
  Modelled from the spec: \<open>Entity.SetDisplayName\<close>,
  \<open>set_display_name(Record, name) -> Ok | StoreError\<close>: the display name of the stored
  record with the entity's id becomes \<open>name\<close>.
\<close>

definition SetDisplayName :: "Entity \<Rightarrow> string \<Rightarrow> db \<Rightarrow> db \<times> store_error option" where
  "SetDisplayName e name d =
     (if update_fault d (ent_ID e) then (d, Some ErrStore)
      else
        (case rows d (ent_ID e) of
           None \<Rightarrow> (d, None)
         | Some r \<Rightarrow> (d\<lparr>rows := (rows d)(ent_ID e \<mapsto> r\<lparr>DisplayName := name\<rparr>)\<rparr>, None)))"

text \<open>
  Modelled from the spec: \<open>Entity.ReceiveIntersectsWith\<close>, a non-empty intersection
  of the record's receive channels with the given channels.
\<close>

definition ReceiveIntersectsWith :: "Entity \<Rightarrow> int list \<Rightarrow> bool" where
  "ReceiveIntersectsWith e chans = (set (ReceiveChannels e) \<inter> set chans \<noteq> {})"

subsection \<open>The collaborators taken as parameters\<close>

text \<open>
  The functions of packages filter, packet, protocol and entity that relay.go calls
  and whose code and byte layout are outside the sources. Every theorem holds for
  each choice of them.
  \<^item> \<open>IsInFilter\<close>: \<open>filter.IsInFilter\<close>, the content filter.
  \<^item> \<open>ParseBaseMessage\<close>: \<open>packet.NewPacketReader\<close> followed by
    \<open>protocol.ParseBaseMessage\<close>: the header and the bytes left in the reader.
  \<^item> \<open>ParseAuthenticateMessage\<close>: \<open>protocol.ParseAuthenticateMessage\<close>.
  \<^item> \<open>decode_chat\<close>, \<open>decode_event\<close>: the payload decoders of
    \<open>protocol.ParseChatMessage\<close> and \<open>protocol.ParseEventMessage\<close>: the payload text
    and the other payload bytes.
  \<^item> \<open>Marshal\<close>: \<open>Deliverable.Marshal\<close>; \<open>MarshalResponse\<close>:
    \<open>AuthenticateMessageResponse.Marshal\<close>.
  \<^item> \<open>DeliverableSendChannels\<close>: \<open>entity.DeliverableSendChannels\<close>, the target
    channels of a message.
\<close>

record deps =
  IsInFilter :: "string \<Rightarrow> bool"
  ParseBaseMessage :: "bytes \<Rightarrow> BaseMessage \<times> bytes"
  ParseAuthenticateMessage :: "BaseMessage \<Rightarrow> bytes \<Rightarrow> AuthenticateMessage"
  decode_chat :: "bytes \<Rightarrow> string \<times> bytes"
  decode_event :: "bytes \<Rightarrow> string \<times> bytes"
  Marshal :: "Deliverable \<Rightarrow> bytes"
  MarshalResponse :: "AuthenticateResponse \<Rightarrow> bytes"
  DeliverableSendChannels :: "db \<Rightarrow> Deliverable \<Rightarrow> int list"

text \<open>
  Modelled from the spec: \<open>protocol.ParseChatMessage\<close> and
  \<open>protocol.ParseEventMessage\<close> construct the typed Deliverable from the header they
  are given and the payload they decode.
\<close>

definition ParseChatMessage :: "deps \<Rightarrow> BaseMessage \<Rightarrow> bytes \<Rightarrow> Deliverable" where
  "ParseChatMessage env base reader =
     \<lparr>Base = base, Content = fst (decode_chat env reader), Rest = snd (decode_chat env reader)\<rparr>"

definition ParseEventMessage :: "deps \<Rightarrow> BaseMessage \<Rightarrow> bytes \<Rightarrow> Deliverable" where
  "ParseEventMessage env base reader =
     \<lparr>Base = base, Content = fst (decode_event env reader), Rest = snd (decode_event env reader)\<rparr>"

subsection \<open>RelayClient and Relay\<close>

record RelayClient =
  Socket :: conn
  Data :: chan
  ID :: string
  Hostname :: string

definition Authenticated :: "RelayClient \<Rightarrow> bool" where
  "Authenticated c = (length (ID c) \<noteq> 0)"

text \<open>
  The state the relay works on. \<open>Clients\<close> are the keys of the map
  \<open>map[*RelayClient]bool\<close>, in the order in which \<open>range\<close> visits them (Go leaves
  that order open, so nothing is proved from it; a map has each key once).
  \<open>Router\<close> and \<open>Bot\<close> are the two message channels: the messages submitted to the
  router and not yet received by it, and the messages handed to the bot, both oldest
  first (both channels are unbuffered; a send waits for its receiver, and the model
  takes the bot to receive what the router sends it). \<open>mem\<close> is the heap of
  \<open>RelayClient\<close> objects that the \<open>*RelayClient\<close> pointers refer to, \<open>store\<close> the
  identity store of package entity.
\<close>

record Relay =
  Clients :: "ptr list"
  Router :: "Deliverable list"
  Bot :: "Deliverable list"
  mem :: "ptr \<Rightarrow> RelayClient"
  store :: db

definition NewRelay :: "(ptr \<Rightarrow> RelayClient) \<Rightarrow> db \<Rightarrow> Relay" where
  "NewRelay h d = \<lparr>Clients = [], Router = [], Bot = [], mem = h, store = d\<rparr>"

definition AddClient :: "ptr \<Rightarrow> Relay \<Rightarrow> Relay" where
  "AddClient c r = (if c \<in> set (Clients r) then r else r\<lparr>Clients := Clients r @ [c]\<rparr>)"

text \<open>
  One round of \<open>ProcessConnections\<close> after a successful \<open>Accept\<close>: the new client, at
  the address \<open>c\<close>, has the accepted connection as its socket, a fresh unbuffered
  mailbox and no identity, and is added to the registry.
\<close>

definition ProcessConnections_accept :: "ptr \<Rightarrow> Relay \<Rightarrow> Relay" where
  "ProcessConnections_accept c r =
     AddClient c
       (r\<lparr>mem := (mem r)(c := \<lparr>Socket = \<lparr>written = [], conn_closed = False\<rparr>,
                                  Data = make_chan, ID = [], Hostname = []\<rparr>)\<rparr>)"

definition RemoveClient :: "ptr \<Rightarrow> Relay \<Rightarrow> panic + Relay" where
  "RemoveClient c r =
     (if c \<in> set (Clients r) then
        (case close_chan (Data (mem r c)) of
           Inl p \<Rightarrow> Inl p
         | Inr ch \<Rightarrow>
             Inr (r\<lparr>mem := (mem r)(c := (mem r c)\<lparr>Data := ch\<rparr>),
                    Clients := removeAll c (Clients r)\<rparr>))
      else Inr r)"

subsection \<open>StartRouting\<close>

text \<open>
  The body of \<open>for client := range r.Clients\<close> for the message \<open>message\<close>, over the
  keys still to visit. Only the key being visited is ever deleted, so the keys still
  to visit are not changed by the loop.
\<close>

fun range_Clients :: "deps \<Rightarrow> Deliverable \<Rightarrow> ptr list \<Rightarrow> Relay \<Rightarrow> panic + Relay" where
  "range_Clients env message [] r = Inr r"
| "range_Clients env message (client # rest) r =
     (case GetEntity (store r) (ID (mem r client)) of
        (tEntity, Some err) \<Rightarrow> range_Clients env message rest r
      | (tEntity, None) \<Rightarrow>
          if ID (mem r client) \<noteq> Author message then
            (case tEntity of
               None \<Rightarrow> Inl NilDereference
             | Some e \<Rightarrow>
                 if ReceiveIntersectsWith e (DeliverableSendChannels env (store r) message) then
                   (case send_nb (Data (mem r client)) (Marshal env message) of
                      Inl p \<Rightarrow> Inl p
                    | Inr (Some ch) \<Rightarrow>
                        range_Clients env message rest
                          (r\<lparr>mem := (mem r)(client := (mem r client)\<lparr>Data := ch\<rparr>)\<rparr>)
                    | Inr None \<Rightarrow>
                        (case close_chan (Data (mem r client)) of
                           Inl p \<Rightarrow> Inl p
                         | Inr ch \<Rightarrow>
                             range_Clients env message rest
                               (r\<lparr>mem := (mem r)(client := (mem r client)\<lparr>Data := ch\<rparr>),
                                  Clients := removeAll client (Clients r)\<rparr>)))
                 else range_Clients env message rest r)
          else range_Clients env message rest r)"

text \<open>
  What one pass of \<open>case message := <-r.Router\<close> does with the message it received:
  the \<open>for\<close> loop goes on, \<open>StartRouting\<close> returns, or the goroutine panics.
\<close>

datatype pass =
    is_Continue: Continue (after: Relay)
  | is_Return: Return (after: Relay)
  | Panic panic

definition StartRouting_case :: "deps \<Rightarrow> Deliverable \<Rightarrow> Relay \<Rightarrow> pass" where
  "StartRouting_case env message r =
     (if IsInFilter env (Content message) then Return r
      else
        (case range_Clients env message (Clients r) r of
           Inl p \<Rightarrow> Panic p
         | Inr r' \<Rightarrow> Continue (r'\<lparr>Bot := Bot r' @ [message]\<rparr>)))"

text \<open>
  How \<open>StartRouting\<close> ends up once the submitted messages are used up: \<open>Blocked\<close>,
  alive and waiting in \<open><-r.Router\<close> for the next message; \<open>Returned\<close>, the function
  has returned and whatever is left in \<open>Router\<close> is never received; \<open>Panicked\<close>.
\<close>

datatype routing =
    is_Blocked: Blocked (final: Relay)
  | is_Returned: Returned (final: Relay)
  | Panicked panic

text \<open>
  The \<open>for { select { case message := <-r.Router: ... } }\<close> loop, over the messages
  waiting in \<open>r.Router\<close>: each pass receives the oldest one.
\<close>

fun StartRouting_loop :: "deps \<Rightarrow> Deliverable list \<Rightarrow> Relay \<Rightarrow> routing" where
  "StartRouting_loop env [] r = Blocked r"
| "StartRouting_loop env (message # waiting) r =
     (case StartRouting_case env message (r\<lparr>Router := waiting\<rparr>) of
        Continue r' \<Rightarrow> StartRouting_loop env waiting r'
      | Return r' \<Rightarrow> Returned r'
      | Panic p \<Rightarrow> Panicked p)"

definition StartRouting :: "deps \<Rightarrow> Relay \<Rightarrow> routing" where
  "StartRouting env r = StartRouting_loop env (Router r) r"

subsection \<open>AuthenticateClient and HandlePacket\<close>

text \<open>
  The end of \<open>AuthenticateClient\<close>, from \<open>tEntity.SetDisplayName\<close> on: the error of
  the update is dropped, the client is bound.
\<close>

definition AuthenticateClient_bind ::
  "ptr \<Rightarrow> AuthenticateMessage \<Rightarrow> Entity option \<Rightarrow> Relay \<Rightarrow> panic + Relay" where
  "AuthenticateClient_bind c packet tEntity r =
     (case tEntity of
        None \<Rightarrow> Inl NilDereference
      | Some e \<Rightarrow>
          Inr (r\<lparr>store := fst (SetDisplayName e (auth_Hostname packet) (store r)),
                 mem := (mem r)(c := (mem r c)\<lparr>ID := Token packet,
                                              Hostname := auth_Hostname packet\<rparr>)\<rparr>))"

definition AuthenticateClient :: "ptr \<Rightarrow> AuthenticateMessage \<Rightarrow> Relay \<Rightarrow> panic + Relay" where
  "AuthenticateClient c packet r =
     (case GetEntity (store r) (Token packet) of
        (tEntity, err) \<Rightarrow>
          if err = Some ErrNoRows then
            (let tEntity' = \<lparr>ent_ID = Token packet, DisplayName = [],
                             ReceiveChannels = [], SendChannels = []\<rparr>
             in case Insert tEntity' (store r) of
                  (d, Some err') \<Rightarrow> Inr (r\<lparr>store := d\<rparr>)
                | (d, None) \<Rightarrow> AuthenticateClient_bind c packet (Some tEntity') (r\<lparr>store := d\<rparr>))
          else AuthenticateClient_bind c packet tEntity r)"

definition Socket_Write :: "ptr \<Rightarrow> bytes \<Rightarrow> Relay \<Rightarrow> Relay" where
  "Socket_Write c b r = r\<lparr>mem := (mem r)(c := (mem r c)\<lparr>Socket := conn_Write (Socket (mem r c)) b\<rparr>)\<rparr>"

definition Socket_Close :: "ptr \<Rightarrow> Relay \<Rightarrow> Relay" where
  "Socket_Close c r = r\<lparr>mem := (mem r)(c := (mem r c)\<lparr>Socket := conn_Close (Socket (mem r c))\<rparr>)\<rparr>"

definition HandlePacket :: "deps \<Rightarrow> ptr \<Rightarrow> bytes \<Rightarrow> Relay \<Rightarrow> panic + Relay" where
  "HandlePacket env client buffer r =
     (case ParseBaseMessage env buffer of
        (base, reader) \<Rightarrow>
          if Type base = MessageAuthenticate then
            (let authenticateMessage = ParseAuthenticateMessage env base reader in
             if length (Token authenticateMessage) = 0 \<or> length (auth_Hostname authenticateMessage) = 0
             then Inr (Socket_Write client (MarshalResponse env AuthenticateDenied) r)
             else
               (case AuthenticateClient client authenticateMessage r of
                  Inl p \<Rightarrow> Inl p
                | Inr r' \<Rightarrow> Inr (Socket_Write client (MarshalResponse env AuthenticateSuccess) r')))
          else if \<not> Authenticated (mem r client) then Inr r
          else
            (let base' = base\<lparr>SenderID := ID (mem r client),
                              base_Hostname := Hostname (mem r client)\<rparr>
             in case Type base' of
                  MessageChat \<Rightarrow> Inr (r\<lparr>Router := Router r @ [ParseChatMessage env base' reader]\<rparr>)
                | MessageEvent \<Rightarrow> Inr (r\<lparr>Router := Router r @ [ParseEventMessage env base' reader]\<rparr>)
                | _ \<Rightarrow>
                    (case RemoveClient client r of
                       Inl p \<Rightarrow> Inl p
                     | Inr r' \<Rightarrow> Inr (Socket_Close client r'))))"

subsection \<open>ListenClientReceive\<close>

text \<open>
  The receive loop of one client over the outcomes of its \<open>Socket.Read\<close> calls, in
  order: \<open>Some buffer\<close> is the bytes of a successful read (at most
  \<open>protocol.MAX_BUFFER_LENGTH\<close> of them, possibly none), \<open>None\<close> a read error.
  A read from a transport that has been closed fails. When the outcomes are used up
  the loop is waiting in \<open>Read\<close>.
\<close>

fun ListenClientReceive :: "deps \<Rightarrow> ptr \<Rightarrow> bytes option list \<Rightarrow> Relay \<Rightarrow> panic + Relay" where
  "ListenClientReceive env c [] r = Inr r"
| "ListenClientReceive env c (read # reads) r =
     (case (if conn_closed (Socket (mem r c)) then None else read) of
        None \<Rightarrow>
          (case RemoveClient c r of
             Inl p \<Rightarrow> Inl p
           | Inr r' \<Rightarrow> Inr (Socket_Close c r'))
      | Some buffer \<Rightarrow>
          if 0 < length buffer then
            (case HandlePacket env c buffer r of
               Inl p \<Rightarrow> Inl p
             | Inr r' \<Rightarrow> ListenClientReceive env c reads r')
          else ListenClientReceive env c reads r)"

subsection \<open>Notions used in the theorems\<close>

text \<open>
  The registry as a Go map with its mailboxes in use: each client is a key once, and
  the mailbox of a registered client is open (\<open>RemoveClient\<close> and the router close a
  mailbox only together with deleting its client).
\<close>

definition registry_ok :: "Relay \<Rightarrow> bool" where
  "registry_ok r =
     (distinct (Clients r) \<and> list_all (\<lambda>c. \<not> closed (Data (mem r c))) (Clients r))"

text \<open>
  The test \<open>StartRouting\<close> makes on a client before it sends: the client's identity
  record is fetched without error, the client is not the author, and the record's
  receive channels meet the message's target channels.
\<close>

definition recipient :: "deps \<Rightarrow> Deliverable \<Rightarrow> db \<Rightarrow> RelayClient \<Rightarrow> bool" where
  "recipient env message d c =
     (case GetEntity d (ID c) of
        (Some e, None) \<Rightarrow>
          ID c \<noteq> Author message \<and>
          ReceiveIntersectsWith e (DeliverableSendChannels env d message)
      | _ \<Rightarrow> False)"

text \<open>What a visit of the fan-out leaves of a client whose mailbox is open.\<close>

definition visit :: "deps \<Rightarrow> Deliverable \<Rightarrow> db \<Rightarrow> RelayClient \<Rightarrow> RelayClient" where
  "visit env message d c =
     (if recipient env message d c then
        (if 0 < room (Data c)
         then c\<lparr>Data := (Data c)\<lparr>queue := queue (Data c) @ [Marshal env message],
                                 room := room (Data c) - 1\<rparr>\<rparr>
         else c\<lparr>Data := (Data c)\<lparr>closed := True\<rparr>\<rparr>)
      else c)"

definition evicted :: "deps \<Rightarrow> Deliverable \<Rightarrow> db \<Rightarrow> RelayClient \<Rightarrow> bool" where
  "evicted env message d c = (recipient env message d c \<and> room (Data c) = 0)"

subsection \<open>A concrete relay\<close>

text \<open>
  A small instance on which the theorems are run: a toy codec and filter, a store
  with three identities, and a registry of five clients: the client at 13 is not yet
  authenticated, the clients at 11 and 14 are bound to the same identity. The argument
  of \<open>ex_relay\<close> is the room in the mailbox of the client at 11.
\<close>

definition ex_env :: deps where
  "ex_env =
     \<lparr>IsInFilter = (\<lambda>t. t = ''spam''),
      ParseBaseMessage =
        (\<lambda>b. case b of
               t # sd # rest \<Rightarrow>
                 (\<lparr>Type = (if t = 1 then MessageAuthenticate else if t = 2 then MessageChat
                            else if t = 3 then MessageEvent else MessageOther (unat t)),
                   SenderID = (if sd = 0 then ''tok1'' else ''tok9''),
                   base_Hostname = (if sd = 0 then ''srvA'' else ''srvZ'')\<rparr>, rest)
             | _ \<Rightarrow> (\<lparr>Type = MessageOther 0, SenderID = [], base_Hostname = []\<rparr>, [])),
      ParseAuthenticateMessage =
        (\<lambda>base reader.
           \<lparr>auth_Base = base,
            Token = (case reader of
                       [] \<Rightarrow> []
                     | x # _ \<Rightarrow> if x = 0 then [] else if x = 1 then ''tok1''
                                else if x = 2 then ''tok2'' else ''tok4''),
            auth_Hostname = (case reader of
                               _ # y # _ \<Rightarrow> if y = 0 then [] else if y = 1 then ''srvA'' else ''srvB''
                             | _ \<Rightarrow> [])\<rparr>),
      decode_chat = (\<lambda>reader. (if reader = [0] then ''spam'' else ''hello'', reader)),
      decode_event = (\<lambda>reader. (''map change'', reader)),
      Marshal = (\<lambda>m. (if Type (Base m) = MessageChat then 2 else 3) # Rest m),
      MarshalResponse = (\<lambda>a. case a of AuthenticateSuccess \<Rightarrow> [4, 1] | AuthenticateDenied \<Rightarrow> [4, 0]),
      DeliverableSendChannels =
        (\<lambda>d m. case rows d (Author m) of None \<Rightarrow> [] | Some e \<Rightarrow> SendChannels e)\<rparr>"

definition ex_rec1 :: Entity where
  "ex_rec1 = \<lparr>ent_ID = ''tok1'', DisplayName = ''srvA'', ReceiveChannels = [2], SendChannels = [1]\<rparr>"

definition ex_rec2 :: Entity where
  "ex_rec2 = \<lparr>ent_ID = ''tok2'', DisplayName = ''srvB'', ReceiveChannels = [1], SendChannels = [2]\<rparr>"

definition ex_rec3 :: Entity where
  "ex_rec3 = \<lparr>ent_ID = ''tok3'', DisplayName = ''srvC'', ReceiveChannels = [5], SendChannels = [5]\<rparr>"

definition ex_db :: db where
  "ex_db =
     \<lparr>rows = [''tok1'' \<mapsto> ex_rec1, ''tok2'' \<mapsto> ex_rec2, ''tok3'' \<mapsto> ex_rec3],
      get_fault = Map.empty,
      insert_fault = (\<lambda>i. i = ''tok4''),
      update_fault = (\<lambda>i. False)\<rparr>"

definition ex_client :: "string \<Rightarrow> string \<Rightarrow> nat \<Rightarrow> RelayClient" where
  "ex_client i h n =
     \<lparr>Socket = \<lparr>written = [], conn_closed = False\<rparr>,
      Data = \<lparr>queue = [], room = n, closed = False\<rparr>,
      ID = i, Hostname = h\<rparr>"

definition ex_relay :: "nat \<Rightarrow> Relay" where
  "ex_relay n =
     \<lparr>Clients = [10, 11, 12, 13, 14],
      Router = [],
      Bot = [],
      mem = (\<lambda>p. if p = 10 then ex_client ''tok1'' ''srvA'' 3
                  else if p = 11 then ex_client ''tok2'' ''srvB'' n
                  else if p = 12 then ex_client ''tok3'' ''srvC'' 3
                  else if p = 14 then ex_client ''tok2'' ''srvB'' 3
                  else ex_client [] [] 3),
      store = ex_db\<rparr>"

definition ex_chat :: "string \<Rightarrow> Deliverable" where
  "ex_chat t = \<lparr>Base = \<lparr>Type = MessageChat, SenderID = ''tok1'', base_Hostname = ''srvA''\<rparr>,
                Content = t, Rest = [7]\<rparr>"

definition ex_auth :: "string \<Rightarrow> string \<Rightarrow> AuthenticateMessage" where
  "ex_auth t h =
     \<lparr>auth_Base = \<lparr>Type = MessageAuthenticate, SenderID = [], base_Hostname = []\<rparr>,
      Token = t, auth_Hostname = h\<rparr>"

section \<open>The fan-out of one message\<close>

text \<open>One step of the loop over the registry, for a client whose mailbox is open.\<close>

lemma range_step:
  assumes "\<not> closed (Data (mem r client))"
  shows "range_Clients env message (client # rest) r =
     range_Clients env message rest
       (r\<lparr>mem := (mem r)(client := visit env message (store r) (mem r client)),
          Clients := (if evicted env message (store r) (mem r client)
                      then removeAll client (Clients r) else Clients r)\<rparr>)"
  using assms
  by (simp add: visit_def evicted_def recipient_def send_nb_def close_chan_def GetEntity_def
      split: option.splits prod.splits)

text \<open>
  The whole loop: over keys that are distinct and whose mailboxes are open it does
  not panic, visits each key once, and removes exactly the recipients it could not
  send to.
\<close>

lemma range_Clients_char:
  assumes "distinct cs" and "\<forall>c\<in>set cs. \<not> closed (Data (mem r c))"
  shows "\<exists>r'. range_Clients env message cs r = Inr r' \<and>
           store r' = store r \<and> Router r' = Router r \<and> Bot r' = Bot r \<and>
           (\<forall>p. mem r' p = (if p \<in> set cs then visit env message (store r) (mem r p) else mem r p)) \<and>
           Clients r' = filter (\<lambda>p. \<not> (p \<in> set cs \<and> evicted env message (store r) (mem r p))) (Clients r)"
  using assms
proof (induction cs arbitrary: r)
  case Nil
  then show ?case by simp
next
  case (Cons client rest)
  let ?r1 = "r\<lparr>mem := (mem r)(client := visit env message (store r) (mem r client)),
          Clients := (if evicted env message (store r) (mem r client)
                      then removeAll client (Clients r) else Clients r)\<rparr>"
  from Cons.prems have open_c: "\<not> closed (Data (mem r client))" by simp
  from Cons.prems have d: "distinct rest" and notin: "client \<notin> set rest" by simp_all
  from Cons.prems notin have o: "\<forall>c\<in>set rest. \<not> closed (Data (mem ?r1 c))" by auto
  from Cons.IH [OF d o] obtain r' where
    run: "range_Clients env message rest ?r1 = Inr r'" and
    st: "store r' = store r" "Router r' = Router r" "Bot r' = Bot r" and
    m: "\<forall>p. mem r' p = (if p \<in> set rest then visit env message (store ?r1) (mem ?r1 p) else mem ?r1 p)" and
    cl: "Clients r' = filter (\<lambda>p. \<not> (p \<in> set rest \<and> evicted env message (store ?r1) (mem ?r1 p))) (Clients ?r1)"
    by auto
  have 1: "range_Clients env message (client # rest) r = Inr r'"
    using range_step [OF open_c] run by simp
  have 2: "\<forall>p. mem r' p = (if p \<in> set (client # rest) then visit env message (store r) (mem r p) else mem r p)"
    using m notin by auto
  have 3: "Clients r' = filter (\<lambda>p. \<not> (p \<in> set (client # rest) \<and> evicted env message (store r) (mem r p))) (Clients r)"
    using cl notin by (auto simp: removeAll_filter_not_eq intro!: filter_cong)
  show ?case using 1 2 3 st by blast
qed

lemma StartRouting_case_char:
  assumes "registry_ok r" and "\<not> IsInFilter env (Content message)"
  shows "\<exists>r'. StartRouting_case env message r = Continue r' \<and>
           store r' = store r \<and> Router r' = Router r \<and> Bot r' = Bot r @ [message] \<and>
           (\<forall>p. mem r' p = (if p \<in> set (Clients r) then visit env message (store r) (mem r p) else mem r p)) \<and>
           Clients r' = filter (\<lambda>p. \<not> evicted env message (store r) (mem r p)) (Clients r)"
proof -
  from assms(1) have d: "distinct (Clients r)" and o: "\<forall>c\<in>set (Clients r). \<not> closed (Data (mem r c))"
    by (simp_all add: registry_ok_def list_all_iff)
  from range_Clients_char [OF d o, of env message] obtain r' where
    run: "range_Clients env message (Clients r) r = Inr r'" and
    st: "store r' = store r" "Router r' = Router r" "Bot r' = Bot r" and
    m: "\<forall>p. mem r' p = (if p \<in> set (Clients r) then visit env message (store r) (mem r p) else mem r p)" and
    cl: "Clients r' = filter (\<lambda>p. \<not> (p \<in> set (Clients r) \<and> evicted env message (store r) (mem r p))) (Clients r)"
    by auto
  have cl': "Clients r' = filter (\<lambda>p. \<not> evicted env message (store r) (mem r p)) (Clients r)"
    unfolding cl by (rule filter_cong) auto
  show ?thesis
    using assms(2) run st m cl' by (simp add: StartRouting_case_def)
qed

text \<open>
  C1 (amended). Let a message that does not match the content filter be routed, and
  let \<open>B\<close> be a connection in the registry. If \<open>B\<close>'s identity id differs from the
  author's, \<open>B\<close>'s identity record is fetched without error, its receive channels
  meet the message's target channels and \<open>B\<close>'s mailbox takes the frame, then exactly
  one encoded copy of the message is appended to \<open>B\<close>'s mailbox. If the receive
  channels and the target channels are disjoint, nothing is appended. If \<open>B\<close>'s
  identity id is the author's, nothing is appended, whatever the channels.
\<close>
theorem fanout_delivery:
  assumes "registry_ok r" and "\<not> IsInFilter env (Content message)" and "B \<in> set (Clients r)"
  shows "\<exists>r'. StartRouting_case env message r = Continue r' \<and>
     (\<forall>e. ID (mem r B) \<noteq> Author message \<and>
          GetEntity (store r) (ID (mem r B)) = (Some e, None) \<and>
          set (ReceiveChannels e) \<inter> set (DeliverableSendChannels env (store r) message) \<noteq> {} \<and>
          0 < room (Data (mem r B))
          \<longrightarrow> queue (Data (mem r' B)) = queue (Data (mem r B)) @ [Marshal env message]) \<and>
     (\<forall>e. ID (mem r B) \<noteq> Author message \<and>
          GetEntity (store r) (ID (mem r B)) = (Some e, None) \<and>
          set (ReceiveChannels e) \<inter> set (DeliverableSendChannels env (store r) message) = {}
          \<longrightarrow> queue (Data (mem r' B)) = queue (Data (mem r B))) \<and>
     (ID (mem r B) = Author message \<longrightarrow> queue (Data (mem r' B)) = queue (Data (mem r B)))"
proof -
  from StartRouting_case_char [OF assms(1,2)] obtain r' where
    run: "StartRouting_case env message r = Continue r'" and
    m: "\<forall>p. mem r' p = (if p \<in> set (Clients r) then visit env message (store r) (mem r p) else mem r p)"
    by blast
  from m assms(3) have mB: "mem r' B = visit env message (store r) (mem r B)" by simp
  show ?thesis
    using run mB
    by (intro exI [of _ r'])
       (auto simp: visit_def recipient_def ReceiveIntersectsWith_def split: option.splits)
qed


text \<open>The concrete relay, evaluated.\<close>

lemma ex_registry_ok: "registry_ok (ex_relay 3)"
    by (simp add: registry_ok_def ex_relay_def ex_client_def)
lemma ex_not_filtered: "\<not> IsInFilter ex_env (Content (ex_chat ''hello''))"
    by (simp add: ex_env_def ex_chat_def)
lemma ex_GetEntity_11: "GetEntity (store (ex_relay 3)) (ID (mem (ex_relay 3) 11)) = (Some ex_rec2, None)"
    by (simp add: GetEntity_def ex_relay_def ex_db_def ex_client_def)
lemma ex_GetEntity_12: "GetEntity (store (ex_relay 3)) (ID (mem (ex_relay 3) 12)) = (Some ex_rec3, None)"
    by (simp add: GetEntity_def ex_relay_def ex_db_def ex_client_def)
lemma ex_target: "DeliverableSendChannels ex_env (store (ex_relay 3)) (ex_chat ''hello'') = [1]"
    by (simp add: ex_env_def ex_relay_def ex_db_def ex_chat_def Author_def ex_rec1_def)
lemma ex_Author: "Author (ex_chat ''hello'') = ''tok1''" by (simp add: Author_def ex_chat_def)
lemma ex_Marshal: "Marshal ex_env (ex_chat ''hello'') = [2, 7]" by (simp add: ex_env_def ex_chat_def)
lemma ex_clients: "ID (mem (ex_relay 3) 10) = ''tok1''" "ID (mem (ex_relay 3) 11) = ''tok2''"
     "ID (mem (ex_relay 3) 12) = ''tok3''"
     "queue (Data (mem (ex_relay 3) 10)) = []" "queue (Data (mem (ex_relay 3) 11)) = []"
     "queue (Data (mem (ex_relay 3) 12)) = []" "room (Data (mem (ex_relay 3) 11)) = 3"
    by (simp_all add: ex_relay_def ex_client_def)
lemma ex_registered: "10 \<in> set (Clients (ex_relay 3))" "11 \<in> set (Clients (ex_relay 3))" "12 \<in> set (Clients (ex_relay 3))"
    by (simp_all add: ex_relay_def)

theorem fanout_delivery_witness:
  "queue (Data (mem (after (StartRouting_case ex_env (ex_chat ''hello'') (ex_relay 3))) 11)) = [[2, 7]] \<and>
   queue (Data (mem (after (StartRouting_case ex_env (ex_chat ''hello'') (ex_relay 3))) 12)) = [] \<and>
   queue (Data (mem (after (StartRouting_case ex_env (ex_chat ''hello'') (ex_relay 3))) 10)) = []"
proof -
  let ?run = "StartRouting_case ex_env (ex_chat ''hello'') (ex_relay 3)"
  have other: "ID (mem (ex_relay 3) 11) \<noteq> Author (ex_chat ''hello'')"
    "ID (mem (ex_relay 3) 12) \<noteq> Author (ex_chat ''hello'')"
    "ID (mem (ex_relay 3) 10) = Author (ex_chat ''hello'')"
    by (simp_all add: ex_Author ex_clients)
  have inter: 
    "set (ReceiveChannels ex_rec2) \<inter> set (DeliverableSendChannels ex_env (store (ex_relay 3)) (ex_chat ''hello'')) \<noteq> {}"
    "set (ReceiveChannels ex_rec3) \<inter> set (DeliverableSendChannels ex_env (store (ex_relay 3)) (ex_chat ''hello'')) = {}"
    by (simp_all add: ex_target ex_rec2_def ex_rec3_def)
  have rm: "0 < room (Data (mem (ex_relay 3) 11))"
    by (simp add: ex_clients)
  from fanout_delivery [OF ex_registry_ok ex_not_filtered ex_registered(2)] other(1) ex_GetEntity_11 inter(1) rm obtain r1 where
    r1: "?run = Continue r1" and
    "queue (Data (mem r1 11)) = queue (Data (mem (ex_relay 3) 11)) @ [Marshal ex_env (ex_chat ''hello'')]"
    by blast
  then have q1: "queue (Data (mem r1 11)) = [[2, 7]]"
    by (simp add: ex_Marshal ex_clients)
  from fanout_delivery [OF ex_registry_ok ex_not_filtered ex_registered(3)] other(2) ex_GetEntity_12 inter(2) obtain r2 where
    r2: "?run = Continue r2" and
    "queue (Data (mem r2 12)) = queue (Data (mem (ex_relay 3) 12))"
    by blast
  then have q2: "queue (Data (mem r2 12)) = []"
    by (simp add: ex_clients)
  from fanout_delivery [OF ex_registry_ok ex_not_filtered ex_registered(1)] other(3) obtain r0 where
    r0: "?run = Continue r0" and
    "queue (Data (mem r0 10)) = queue (Data (mem (ex_relay 3) 10))"
    by blast
  then have q0: "queue (Data (mem r0 10)) = []"
    by (simp add: ex_clients)
  from r1 r2 r0 have "r2 = r1" "r0 = r1" by simp_all
  with q1 q2 q0 r1 show ?thesis by simp
qed

theorem fanout_full_mailbox_counterexample:
  "11 \<in> set (Clients (ex_relay 0)) \<and>
   ID (mem (ex_relay 0) 11) \<noteq> Author (ex_chat ''hello'') \<and>
   GetEntity (store (ex_relay 0)) (ID (mem (ex_relay 0) 11)) = (Some ex_rec2, None) \<and>
   set (ReceiveChannels ex_rec2) \<inter>
     set (DeliverableSendChannels ex_env (store (ex_relay 0)) (ex_chat ''hello'')) \<noteq> {} \<and>
   Authenticated (mem (ex_relay 0) 11) \<and>
   is_Continue (StartRouting_case ex_env (ex_chat ''hello'') (ex_relay 0)) \<and>
   queue (Data (mem (after (StartRouting_case ex_env (ex_chat ''hello'') (ex_relay 0))) 11)) = [] \<and>
   queue (Data (mem (ex_relay 0) 11)) @ [Marshal ex_env (ex_chat ''hello'')] = [[2, 7]]"
  by (simp add: StartRouting_case_def ex_relay_def ex_env_def ex_chat_def ex_db_def ex_client_def
      ex_rec1_def ex_rec2_def ex_rec3_def GetEntity_def Author_def ReceiveIntersectsWith_def
      Authenticated_def send_nb_def close_chan_def)

section \<open>The content filter\<close>

text \<open>
  C2. A message whose payload text matches the content filter is dropped: the pass
  that handles it leaves the whole state as it was, so no frame is enqueued onto any
  mailbox and nothing is submitted to the bot channel; \<open>StartRouting\<close> itself
  returns there, with the state it had when it received the message.
\<close>
theorem filtered_message_dropped:
  assumes "IsInFilter env (Content message)"
  shows "StartRouting_case env message r = Return r \<and>
         (Router r = message # waiting \<longrightarrow> StartRouting env r = Returned (r\<lparr>Router := waiting\<rparr>))"
  using assms by (simp add: StartRouting_def StartRouting_case_def)

theorem filtered_message_dropped_witness:
  "StartRouting_case ex_env (ex_chat ''spam'') (ex_relay 3) = Return (ex_relay 3) \<and>
   StartRouting ex_env ((ex_relay 3)\<lparr>Router := [ex_chat ''spam'']\<rparr>) = Returned (ex_relay 3)"
proof -
  have f: "IsInFilter ex_env (Content (ex_chat ''spam''))"
    by (simp add: ex_env_def ex_chat_def)
  have e: "(ex_relay 3)\<lparr>Router := [ex_chat ''spam''], Router := []\<rparr> = ex_relay 3"
    by (simp add: ex_relay_def)
  show ?thesis
    using filtered_message_dropped [OF f, of "ex_relay 3"]
      filtered_message_dropped [OF f, of "(ex_relay 3)\<lparr>Router := [ex_chat ''spam'']\<rparr>" "[]"]
    by (simp add: e)
qed

text \<open>
  C3 fails on the code. With a filtered message submitted before an ordinary one,
  \<open>StartRouting\<close> returns at the filtered message: the ordinary message stays in
  \<open>Router\<close>, is never received, and reaches no mailbox and not the bot. Submitted
  alone, the same ordinary message is delivered to the client at 11 and handed to
  the bot, and the loop stays alive.
\<close>
theorem filtered_message_stops_routing:
  "StartRouting ex_env ((ex_relay 3)\<lparr>Router := [ex_chat ''spam'', ex_chat ''hello'']\<rparr>) =
     Returned ((ex_relay 3)\<lparr>Router := [ex_chat ''hello'']\<rparr>) \<and>
   is_Blocked (StartRouting ex_env ((ex_relay 3)\<lparr>Router := [ex_chat ''hello'']\<rparr>)) \<and>
   queue (Data (mem (final (StartRouting ex_env ((ex_relay 3)\<lparr>Router := [ex_chat ''hello'']\<rparr>))) 11)) = [[2, 7]] \<and>
   Bot (final (StartRouting ex_env ((ex_relay 3)\<lparr>Router := [ex_chat ''hello'']\<rparr>))) = [ex_chat ''hello'']"
  by (simp add: StartRouting_def StartRouting_case_def ex_relay_def ex_env_def ex_chat_def ex_db_def ex_client_def
      ex_rec1_def ex_rec2_def ex_rec3_def GetEntity_def Author_def ReceiveIntersectsWith_def
      send_nb_def close_chan_def)

section \<open>Mailbox overflow\<close>

lemma registry_ok_removeAll:
  "registry_ok r \<Longrightarrow> registry_ok (r\<lparr>Clients := removeAll B (Clients r)\<rparr>)"
  by (simp add: registry_ok_def list_all_iff distinct_removeAll)

text \<open>
  C5. When the fan-out reaches a recipient \<open>B\<close> whose mailbox cannot take the frame,
  \<open>B\<close> is removed from the registry and its mailbox is closed, with nothing
  enqueued. Every other recipient whose mailbox has room still gets its copy and
  stays registered, the message still goes to the bot, and what the pass does to the
  other clients and to the registry is what it does when \<open>B\<close> is not registered at
  all.
\<close>
theorem overflow_evicts_only_the_recipient:
  assumes "registry_ok r" and "\<not> IsInFilter env (Content message)"
    and "B \<in> set (Clients r)"
    and "ID (mem r B) \<noteq> Author message"
    and "GetEntity (store r) (ID (mem r B)) = (Some e, None)"
    and "ReceiveIntersectsWith e (DeliverableSendChannels env (store r) message)"
    and "room (Data (mem r B)) = 0"
  shows "\<exists>r'. StartRouting_case env message r = Continue r' \<and>
           B \<notin> set (Clients r') \<and> closed (Data (mem r' B)) \<and>
           queue (Data (mem r' B)) = queue (Data (mem r B)) \<and>
           Bot r' = Bot r @ [message] \<and>
           (\<forall>C\<in>set (Clients r).
               C \<noteq> B \<and> recipient env message (store r) (mem r C) \<and> 0 < room (Data (mem r C)) \<longrightarrow>
               C \<in> set (Clients r') \<and> \<not> closed (Data (mem r' C)) \<and>
               queue (Data (mem r' C)) = queue (Data (mem r C)) @ [Marshal env message]) \<and>
           (\<exists>r''. StartRouting_case env message (r\<lparr>Clients := removeAll B (Clients r)\<rparr>) = Continue r'' \<and>
                  Clients r' = Clients r'' \<and> Bot r' = Bot r'' \<and>
                  (\<forall>C. C \<noteq> B \<longrightarrow> mem r' C = mem r'' C))"
proof -
  let ?r0 = "r\<lparr>Clients := removeAll B (Clients r)\<rparr>"
  from StartRouting_case_char [OF assms(1,2)] obtain r' where
    run: "StartRouting_case env message r = Continue r'" and
    bot: "Bot r' = Bot r @ [message]" and
    m: "\<forall>p. mem r' p = (if p \<in> set (Clients r) then visit env message (store r) (mem r p) else mem r p)" and
    cl: "Clients r' = filter (\<lambda>p. \<not> evicted env message (store r) (mem r p)) (Clients r)"
    by blast
  from StartRouting_case_char [OF registry_ok_removeAll [OF assms(1)] assms(2), of B] obtain r'' where
    run0: "StartRouting_case env message ?r0 = Continue r''" and
    bot0: "Bot r'' = Bot ?r0 @ [message]" and
    m0: "\<forall>p. mem r'' p = (if p \<in> set (Clients ?r0) then visit env message (store ?r0) (mem ?r0 p) else mem ?r0 p)" and
    cl0: "Clients r'' = filter (\<lambda>p. \<not> evicted env message (store ?r0) (mem ?r0 p)) (Clients ?r0)"
    by blast
  from assms(1) have o: "\<forall>c\<in>set (Clients r). \<not> closed (Data (mem r c))"
    by (simp add: registry_ok_def list_all_iff)
  have recB: "recipient env message (store r) (mem r B)"
    using assms(4,5,6) by (simp add: recipient_def)
  then have evB: "evicted env message (store r) (mem r B)"
    using assms(7) by (simp add: evicted_def)
  have mB: "mem r' B = (mem r B)\<lparr>Data := (Data (mem r B))\<lparr>closed := True\<rparr>\<rparr>"
    using m assms(3,7) recB by (simp add: visit_def)
  have 1: "B \<notin> set (Clients r')" using cl evB by simp
  have 2: "closed (Data (mem r' B))" "queue (Data (mem r' B)) = queue (Data (mem r B))"
    using mB by simp_all
  have 3: "\<forall>C\<in>set (Clients r).
               C \<noteq> B \<and> recipient env message (store r) (mem r C) \<and> 0 < room (Data (mem r C)) \<longrightarrow>
               C \<in> set (Clients r') \<and> \<not> closed (Data (mem r' C)) \<and>
               queue (Data (mem r' C)) = queue (Data (mem r C)) @ [Marshal env message]"
    using m cl o by (auto simp: visit_def evicted_def)
  have "filter (\<lambda>p. \<not> evicted env message (store r) (mem r p)) (removeAll B (Clients r)) =
        filter (\<lambda>p. \<not> evicted env message (store r) (mem r p)) (Clients r)"
    unfolding removeAll_filter_not_eq filter_filter
    by (rule filter_cong) (use evB in auto)
  then have 4: "Clients r' = Clients r''"
    using cl cl0 by simp
  have 5: "\<forall>C. C \<noteq> B \<longrightarrow> mem r' C = mem r'' C"
    using m m0 by simp
  show ?thesis
    using run run0 bot bot0 1 2 3 4 5 by auto
qed

theorem overflow_evicts_only_the_recipient_witness:
  "11 \<notin> set (Clients (after (StartRouting_case ex_env (ex_chat ''hello'') (ex_relay 0)))) \<and>
   closed (Data (mem (after (StartRouting_case ex_env (ex_chat ''hello'') (ex_relay 0))) 11)) \<and>
   queue (Data (mem (after (StartRouting_case ex_env (ex_chat ''hello'') (ex_relay 0))) 11)) = [] \<and>
   14 \<in> set (Clients (after (StartRouting_case ex_env (ex_chat ''hello'') (ex_relay 0)))) \<and>
   \<not> closed (Data (mem (after (StartRouting_case ex_env (ex_chat ''hello'') (ex_relay 0))) 14)) \<and>
   queue (Data (mem (after (StartRouting_case ex_env (ex_chat ''hello'') (ex_relay 0))) 14)) = [[2, 7]] \<and>
   Bot (after (StartRouting_case ex_env (ex_chat ''hello'') (ex_relay 0))) = [ex_chat ''hello'']"
proof -
  let ?r = "ex_relay 0"
  let ?m = "ex_chat ''hello''"
  have ok: "registry_ok ?r"
    by (simp add: registry_ok_def ex_relay_def ex_client_def)
  have reg: "11 \<in> set (Clients ?r)" "14 \<in> set (Clients ?r)"
    by (simp_all add: ex_relay_def)
  have other: "ID (mem ?r 11) \<noteq> Author ?m"
    by (simp add: ex_relay_def ex_client_def ex_chat_def Author_def)
  have get: "GetEntity (store ?r) (ID (mem ?r 11)) = (Some ex_rec2, None)"
    by (simp add: GetEntity_def ex_relay_def ex_db_def ex_client_def)
  have target: "DeliverableSendChannels ex_env (store ?r) ?m = [1]"
    by (simp add: ex_env_def ex_relay_def ex_db_def ex_chat_def Author_def ex_rec1_def)
  have meet: "ReceiveIntersectsWith ex_rec2 (DeliverableSendChannels ex_env (store ?r) ?m)"
    by (simp add: target ReceiveIntersectsWith_def ex_rec2_def)
  have full: "room (Data (mem ?r 11)) = 0"
    by (simp add: ex_relay_def ex_client_def)
  have rec14: "14 \<noteq> (11::nat) \<and> recipient ex_env ?m (store ?r) (mem ?r 14) \<and> 0 < room (Data (mem ?r 14))"
    using meet
    by (simp add: recipient_def GetEntity_def ex_relay_def ex_db_def ex_client_def ex_chat_def Author_def)
  have before: "queue (Data (mem ?r 11)) = []" "queue (Data (mem ?r 14)) = []" "Bot ?r = []"
    by (simp_all add: ex_relay_def ex_client_def)
  from overflow_evicts_only_the_recipient [OF ok ex_not_filtered reg(1) other get meet full]
  obtain r' where
    run: "StartRouting_case ex_env ?m ?r = Continue r'" and
    gone: "11 \<notin> set (Clients r')" "closed (Data (mem r' 11))"
      "queue (Data (mem r' 11)) = queue (Data (mem ?r 11))" and
    bot: "Bot r' = Bot ?r @ [?m]" and
    others: "\<forall>C\<in>set (Clients ?r).
               C \<noteq> 11 \<and> recipient ex_env ?m (store ?r) (mem ?r C) \<and> 0 < room (Data (mem ?r C)) \<longrightarrow>
               C \<in> set (Clients r') \<and> \<not> closed (Data (mem r' C)) \<and>
               queue (Data (mem r' C)) = queue (Data (mem ?r C)) @ [Marshal ex_env ?m]"
    by blast
  from others reg(2) rec14 have
    "14 \<in> set (Clients r')" "\<not> closed (Data (mem r' 14))"
    "queue (Data (mem r' 14)) = queue (Data (mem ?r 14)) @ [Marshal ex_env ?m]"
    by blast+
  with run gone bot show ?thesis
    by (simp add: before ex_Marshal)
qed

section \<open>Authentication\<close>

lemma AuthenticateClient_cases:
  "(AuthenticateClient c packet r = Inr r \<and>
      GetEntity (store r) (Token packet) = (None, Some ErrNoRows) \<and>
      insert_fault (store r) (Token packet)) \<or>
   (\<exists>d. AuthenticateClient c packet r =
          Inr (r\<lparr>store := d,
                 mem := (mem r)(c := (mem r c)\<lparr>ID := Token packet,
                                              Hostname := auth_Hostname packet\<rparr>)\<rparr>) \<and>
        \<not> (GetEntity (store r) (Token packet) = (None, Some ErrNoRows) \<and>
           insert_fault (store r) (Token packet)))"
proof (cases "GetEntity (store r) (Token packet) = (None, Some ErrNoRows)")
  case True
  then show ?thesis
    by (cases "insert_fault (store r) (Token packet)")
       (auto simp: AuthenticateClient_def AuthenticateClient_bind_def Insert_def Let_def
          intro!: exI)
next
  case False
  then show ?thesis
    by (auto simp: AuthenticateClient_def AuthenticateClient_bind_def GetEntity_def
        split: option.splits intro!: exI)
qed

text \<open>
  C10. An Authenticate frame with a non-empty token and a non-empty hostname, handled
  on a connection whose transport is open, is answered with a Success response on
  that transport. That includes the case where the identity record did not exist and
  its creation failed: the store and the connection's binding are then as before,
  so a connection that was unauthenticated still is, and Success is written all the
  same.
\<close>
theorem authenticate_answers_success:
  assumes "ParseBaseMessage env buffer = (base, reader)"
    and "Type base = MessageAuthenticate"
    and "Token (ParseAuthenticateMessage env base reader) \<noteq> []"
    and "auth_Hostname (ParseAuthenticateMessage env base reader) \<noteq> []"
    and "\<not> conn_closed (Socket (mem r c))"
  shows "\<exists>r'. HandlePacket env c buffer r = Inr r' \<and>
           written (Socket (mem r' c)) =
             written (Socket (mem r c)) @ [MarshalResponse env AuthenticateSuccess] \<and>
           (GetEntity (store r) (Token (ParseAuthenticateMessage env base reader)) =
              (None, Some ErrNoRows) \<and>
            insert_fault (store r) (Token (ParseAuthenticateMessage env base reader)) \<longrightarrow>
              store r' = store r \<and> ID (mem r' c) = ID (mem r c) \<and>
              Hostname (mem r' c) = Hostname (mem r c))"
  using assms AuthenticateClient_cases [of c "ParseAuthenticateMessage env base reader" r]
  by (auto simp: HandlePacket_def Socket_Write_def conn_Write_def)

theorem authenticate_answers_success_witness:
  "written (Socket (mem (projr (HandlePacket ex_env 13 [1, 0, 3, 1] (ex_relay 3))) 13)) = [[4, 1]] \<and>
   ID (mem (projr (HandlePacket ex_env 13 [1, 0, 3, 1] (ex_relay 3))) 13) = [] \<and>
   store (projr (HandlePacket ex_env 13 [1, 0, 3, 1] (ex_relay 3))) = ex_db"
proof -
  let ?base = "\<lparr>Type = MessageAuthenticate, SenderID = ''tok1'', base_Hostname = ''srvA''\<rparr>"
  have p: "ParseBaseMessage ex_env [1, 0, 3, 1] = (?base, [3, 1])"
    by (simp add: ex_env_def)
  have t: "Token (ParseAuthenticateMessage ex_env ?base [3, 1]) = ''tok4''"
    "auth_Hostname (ParseAuthenticateMessage ex_env ?base [3, 1]) = ''srvA''"
    by (simp_all add: ex_env_def)
  have ne: "Token (ParseAuthenticateMessage ex_env ?base [3, 1]) \<noteq> []"
    "auth_Hostname (ParseAuthenticateMessage ex_env ?base [3, 1]) \<noteq> []"
    by (simp_all add: t)
  have opn: "\<not> conn_closed (Socket (mem (ex_relay 3) 13))"
    by (simp add: ex_relay_def ex_client_def)
  have absent: "GetEntity (store (ex_relay 3)) (Token (ParseAuthenticateMessage ex_env ?base [3, 1])) =
              (None, Some ErrNoRows)"
    "insert_fault (store (ex_relay 3)) (Token (ParseAuthenticateMessage ex_env ?base [3, 1]))"
    by (simp_all add: t GetEntity_def ex_relay_def ex_db_def)
  have before: "written (Socket (mem (ex_relay 3) 13)) = []" "ID (mem (ex_relay 3) 13) = []"
    "store (ex_relay 3) = ex_db" "MarshalResponse ex_env AuthenticateSuccess = [4, 1]"
    by (simp_all add: ex_relay_def ex_client_def ex_env_def)
  from authenticate_answers_success [OF p _ ne opn] absent
  obtain r' where "HandlePacket ex_env 13 [1, 0, 3, 1] (ex_relay 3) = Inr r'"
    "written (Socket (mem r' 13)) = written (Socket (mem (ex_relay 3) 13)) @ [MarshalResponse ex_env AuthenticateSuccess]"
    "store r' = store (ex_relay 3)" "ID (mem r' 13) = ID (mem (ex_relay 3) 13)"
    by auto
  then show ?thesis by (simp add: before)
qed

text \<open>
  C7. An Authenticate frame whose token or whose hostname is empty changes nothing
  in the store and nothing in the connection's binding: the connection stays in the
  registry, its transport and mailbox stay as open as they were, no other client is
  touched, and a Denied response is written to the transport (when that is open).
\<close>
theorem authenticate_empty_denied:
  assumes "ParseBaseMessage env buffer = (base, reader)"
    and "Type base = MessageAuthenticate"
    and "Token (ParseAuthenticateMessage env base reader) = [] \<or>
         auth_Hostname (ParseAuthenticateMessage env base reader) = []"
  shows "\<exists>r'. HandlePacket env c buffer r = Inr r' \<and>
           store r' = store r \<and>
           ID (mem r' c) = ID (mem r c) \<and> Hostname (mem r' c) = Hostname (mem r c) \<and>
           Data (mem r' c) = Data (mem r c) \<and>
           conn_closed (Socket (mem r' c)) = conn_closed (Socket (mem r c)) \<and>
           Clients r' = Clients r \<and> Router r' = Router r \<and> Bot r' = Bot r \<and>
           (\<forall>p. p \<noteq> c \<longrightarrow> mem r' p = mem r p) \<and>
           (\<not> conn_closed (Socket (mem r c)) \<longrightarrow>
              written (Socket (mem r' c)) =
                written (Socket (mem r c)) @ [MarshalResponse env AuthenticateDenied])"
  using assms
  by (auto simp: HandlePacket_def Socket_Write_def conn_Write_def)

theorem authenticate_empty_denied_witness:
  "written (Socket (mem (projr (HandlePacket ex_env 13 [1, 0, 0, 1] (ex_relay 3))) 13)) = [[4, 0]] \<and>
   ID (mem (projr (HandlePacket ex_env 13 [1, 0, 0, 1] (ex_relay 3))) 13) = [] \<and>
   store (projr (HandlePacket ex_env 13 [1, 0, 0, 1] (ex_relay 3))) = ex_db \<and>
   written (Socket (mem (projr (HandlePacket ex_env 13 [1, 0, 2, 0] (ex_relay 3))) 13)) = [[4, 0]] \<and>
   ID (mem (projr (HandlePacket ex_env 13 [1, 0, 2, 0] (ex_relay 3))) 13) = [] \<and>
   store (projr (HandlePacket ex_env 13 [1, 0, 2, 0] (ex_relay 3))) = ex_db"
proof -
  let ?base = "\<lparr>Type = MessageAuthenticate, SenderID = ''tok1'', base_Hostname = ''srvA''\<rparr>"
  have p: "ParseBaseMessage ex_env [1, 0, 0, 1] = (?base, [0, 1])"
    "ParseBaseMessage ex_env [1, 0, 2, 0] = (?base, [2, 0])"
    by (simp_all add: ex_env_def)
  have t: "Token (ParseAuthenticateMessage ex_env ?base [0, 1]) = [] \<or>
         auth_Hostname (ParseAuthenticateMessage ex_env ?base [0, 1]) = []"
     "Token (ParseAuthenticateMessage ex_env ?base [2, 0]) = [] \<or>
         auth_Hostname (ParseAuthenticateMessage ex_env ?base [2, 0]) = []"
    by (simp_all add: ex_env_def)
  have before: "written (Socket (mem (ex_relay 3) 13)) = []" "ID (mem (ex_relay 3) 13) = []"
    "store (ex_relay 3) = ex_db" "MarshalResponse ex_env AuthenticateDenied = [4, 0]"
    "\<not> conn_closed (Socket (mem (ex_relay 3) 13))"
    by (simp_all add: ex_relay_def ex_client_def ex_env_def)
  from authenticate_empty_denied [OF p(1) _ t(1), of 13 "ex_relay 3"] before(5)
  obtain r1 where "HandlePacket ex_env 13 [1, 0, 0, 1] (ex_relay 3) = Inr r1"
    "written (Socket (mem r1 13)) = written (Socket (mem (ex_relay 3) 13)) @ [MarshalResponse ex_env AuthenticateDenied]"
    "store r1 = store (ex_relay 3)" "ID (mem r1 13) = ID (mem (ex_relay 3) 13)"
    by auto
  then have 1: "written (Socket (mem (projr (HandlePacket ex_env 13 [1, 0, 0, 1] (ex_relay 3))) 13)) = [[4, 0]] \<and>
   ID (mem (projr (HandlePacket ex_env 13 [1, 0, 0, 1] (ex_relay 3))) 13) = [] \<and>
   store (projr (HandlePacket ex_env 13 [1, 0, 0, 1] (ex_relay 3))) = ex_db"
    by (simp add: before)
  from authenticate_empty_denied [OF p(2) _ t(2), of 13 "ex_relay 3"] before(5)
  obtain r2 where "HandlePacket ex_env 13 [1, 0, 2, 0] (ex_relay 3) = Inr r2"
    "written (Socket (mem r2 13)) = written (Socket (mem (ex_relay 3) 13)) @ [MarshalResponse ex_env AuthenticateDenied]"
    "store r2 = store (ex_relay 3)" "ID (mem r2 13) = ID (mem (ex_relay 3) 13)"
    by auto
  then have 2: "written (Socket (mem (projr (HandlePacket ex_env 13 [1, 0, 2, 0] (ex_relay 3))) 13)) = [[4, 0]] \<and>
   ID (mem (projr (HandlePacket ex_env 13 [1, 0, 2, 0] (ex_relay 3))) 13) = [] \<and>
   store (projr (HandlePacket ex_env 13 [1, 0, 2, 0] (ex_relay 3))) = ex_db"
    by (simp add: before)
  from 1 2 show ?thesis by simp
qed

text \<open>
  C8. Authenticating with a non-empty token that the store does not have creates a
  record with that token as its id (and no channels), and binds the connection to
  the token and hostname. If the creation fails, \<open>AuthenticateClient\<close> leaves the
  whole state as it was: the connection's binding is unchanged and no display name
  is updated.
\<close>
theorem authenticate_unknown_token:
  assumes "Token packet \<noteq> []"
    and "GetEntity (store r) (Token packet) = (None, Some ErrNoRows)"
  shows "(insert_fault (store r) (Token packet) \<longrightarrow> AuthenticateClient c packet r = Inr r) \<and>
         (\<not> insert_fault (store r) (Token packet) \<longrightarrow>
            (\<exists>r' e. AuthenticateClient c packet r = Inr r' \<and>
                    rows (store r') (Token packet) = Some e \<and> ent_ID e = Token packet \<and>
                    ReceiveChannels e = [] \<and> SendChannels e = [] \<and>
                    (\<forall>i. i \<noteq> Token packet \<longrightarrow> rows (store r') i = rows (store r) i) \<and>
                    ID (mem r' c) = Token packet \<and> Hostname (mem r' c) = auth_Hostname packet))"
  using assms
  by (auto simp: AuthenticateClient_def AuthenticateClient_bind_def Insert_def SetDisplayName_def
      Let_def)

theorem authenticate_unknown_token_witness:
  "AuthenticateClient 13 (ex_auth ''tok4'' ''srvD'') (ex_relay 3) = Inr (ex_relay 3) \<and>
   rows (store (projr (AuthenticateClient 13 (ex_auth ''tok7'' ''srvD'') (ex_relay 3)))) ''tok7'' =
     Some \<lparr>ent_ID = ''tok7'', DisplayName = ''srvD'', ReceiveChannels = [], SendChannels = []\<rparr> \<and>
   ID (mem (projr (AuthenticateClient 13 (ex_auth ''tok7'' ''srvD'') (ex_relay 3))) 13) = ''tok7''"
proof -
  have t: "Token (ex_auth ''tok4'' ''srvD'') \<noteq> []" "Token (ex_auth ''tok7'' ''srvD'') \<noteq> []"
    by (simp_all add: ex_auth_def)
  have g: "GetEntity (store (ex_relay 3)) (Token (ex_auth ''tok4'' ''srvD'')) = (None, Some ErrNoRows)"
    "GetEntity (store (ex_relay 3)) (Token (ex_auth ''tok7'' ''srvD'')) = (None, Some ErrNoRows)"
    by (simp_all add: ex_auth_def GetEntity_def ex_relay_def ex_db_def)
  have f: "insert_fault (store (ex_relay 3)) (Token (ex_auth ''tok4'' ''srvD''))"
    "\<not> insert_fault (store (ex_relay 3)) (Token (ex_auth ''tok7'' ''srvD''))"
    by (simp_all add: ex_auth_def ex_relay_def ex_db_def)
  have 1: "AuthenticateClient 13 (ex_auth ''tok4'' ''srvD'') (ex_relay 3) = Inr (ex_relay 3)"
    using authenticate_unknown_token [OF t(1) g(1), of 13] f(1) by blast
  have 2: "rows (store (projr (AuthenticateClient 13 (ex_auth ''tok7'' ''srvD'') (ex_relay 3)))) ''tok7'' =
     Some \<lparr>ent_ID = ''tok7'', DisplayName = ''srvD'', ReceiveChannels = [], SendChannels = []\<rparr>"
    by (simp add: AuthenticateClient_def AuthenticateClient_bind_def Insert_def SetDisplayName_def
        GetEntity_def ex_auth_def ex_relay_def ex_db_def)
  from authenticate_unknown_token [OF t(2) g(2), of 13] f(2)
  obtain r' where "AuthenticateClient 13 (ex_auth ''tok7'' ''srvD'') (ex_relay 3) = Inr r'"
    "ID (mem r' 13) = Token (ex_auth ''tok7'' ''srvD'')"
    by blast
  then have 3: "ID (mem (projr (AuthenticateClient 13 (ex_auth ''tok7'' ''srvD'') (ex_relay 3))) 13) = ''tok7''"
    by (simp add: ex_auth_def)
  from 1 2 3 show ?thesis by simp
qed

text \<open>
  C9. Authenticating with a token whose record the store has changes, in the store,
  only the display name of that record, to the hostname supplied (and not even that
  when the update fails): the record's id, receive channels and send channels are
  as before, and so is every other record.
\<close>
theorem reauthenticate_changes_display_name_only:
  assumes "GetEntity (store r) (Token packet) = (Some e, None)"
    and "ent_ID e = Token packet"
  shows "\<exists>r' e'. AuthenticateClient c packet r = Inr r' \<and>
           rows (store r') (Token packet) = Some e' \<and>
           e' = (if update_fault (store r) (Token packet) then e
                 else e\<lparr>DisplayName := auth_Hostname packet\<rparr>) \<and>
           ent_ID e' = ent_ID e \<and>
           ReceiveChannels e' = ReceiveChannels e \<and> SendChannels e' = SendChannels e \<and>
           (\<forall>i. i \<noteq> Token packet \<longrightarrow> rows (store r') i = rows (store r) i) \<and>
           get_fault (store r') = get_fault (store r) \<and>
           insert_fault (store r') = insert_fault (store r) \<and>
           update_fault (store r') = update_fault (store r)"
  using assms
  by (auto simp: AuthenticateClient_def AuthenticateClient_bind_def SetDisplayName_def
      GetEntity_def split: option.splits)

theorem reauthenticate_changes_display_name_only_witness:
  "rows (store (projr (AuthenticateClient 11 (ex_auth ''tok2'' ''srvNew'') (ex_relay 3)))) ''tok2'' =
     Some \<lparr>ent_ID = ''tok2'', DisplayName = ''srvNew'', ReceiveChannels = [1], SendChannels = [2]\<rparr>"
proof -
  have g: "GetEntity (store (ex_relay 3)) (Token (ex_auth ''tok2'' ''srvNew'')) = (Some ex_rec2, None)"
    by (simp add: ex_auth_def GetEntity_def ex_relay_def ex_db_def)
  have i: "ent_ID ex_rec2 = Token (ex_auth ''tok2'' ''srvNew'')"
    by (simp add: ex_auth_def ex_rec2_def)
  have u: "\<not> update_fault (store (ex_relay 3)) (Token (ex_auth ''tok2'' ''srvNew''))"
    by (simp add: ex_relay_def ex_db_def)
  from reauthenticate_changes_display_name_only [OF g i, of 11] u
  obtain r' where "AuthenticateClient 11 (ex_auth ''tok2'' ''srvNew'') (ex_relay 3) = Inr r'"
    "rows (store r') (Token (ex_auth ''tok2'' ''srvNew'')) =
       Some (ex_rec2\<lparr>DisplayName := auth_Hostname (ex_auth ''tok2'' ''srvNew'')\<rparr>)"
    by auto
  then show ?thesis
    by (simp add: ex_auth_def ex_rec2_def)
qed

section \<open>Frames of an authenticated connection\<close>

text \<open>
  C4. A chat or event frame handled on an authenticated connection submits to the
  router one message whose author identity id and hostname are the connection's
  bound id and hostname. The sender id and hostname decoded from the frame have no
  part in it: a second frame whose header differs from the first only in those two
  fields (same type, same bytes left to decode) is handled with the very same
  result.
\<close>
theorem author_fields_from_binding:
  assumes "Authenticated (mem r c)"
    and "ParseBaseMessage env buffer = (base, reader)"
    and "Type base = MessageChat \<or> Type base = MessageEvent"
  shows "\<exists>message. HandlePacket env c buffer r = Inr (r\<lparr>Router := Router r @ [message]\<rparr>) \<and>
           Author message = ID (mem r c) \<and>
           base_Hostname (Base message) = Hostname (mem r c) \<and>
           (\<forall>buffer' base'.
               ParseBaseMessage env buffer' = (base', reader) \<and> Type base' = Type base \<longrightarrow>
               HandlePacket env c buffer' r = HandlePacket env c buffer r)"
  using assms
  by (auto simp: HandlePacket_def ParseChatMessage_def ParseEventMessage_def Author_def)

theorem author_fields_from_binding_witness:
  "SenderID (fst (ParseBaseMessage ex_env [2, 1, 7])) = ''tok9'' \<and>
   SenderID (fst (ParseBaseMessage ex_env [2, 0, 7])) = ''tok1'' \<and>
   HandlePacket ex_env 11 [2, 1, 7] (ex_relay 3) = HandlePacket ex_env 11 [2, 0, 7] (ex_relay 3) \<and>
   map Author (Router (projr (HandlePacket ex_env 11 [2, 1, 7] (ex_relay 3)))) = [''tok2'']"
proof -
  let ?b1 = "\<lparr>Type = MessageChat, SenderID = ''tok9'', base_Hostname = ''srvZ''\<rparr>"
  let ?b0 = "\<lparr>Type = MessageChat, SenderID = ''tok1'', base_Hostname = ''srvA''\<rparr>"
  have a: "Authenticated (mem (ex_relay 3) 11)"
    by (simp add: Authenticated_def ex_relay_def ex_client_def)
  have p: "ParseBaseMessage ex_env [2, 1, 7] = (?b1, [7])" "ParseBaseMessage ex_env [2, 0, 7] = (?b0, [7])"
    by (simp_all add: ex_env_def)
  have t: "Type ?b1 = MessageChat \<or> Type ?b1 = MessageEvent" "Type ?b0 = Type ?b1"
    by simp_all
  have before: "Router (ex_relay 3) = []" "ID (mem (ex_relay 3) 11) = ''tok2''"
    by (simp_all add: ex_relay_def ex_client_def)
  from author_fields_from_binding [OF a p(1) t(1)] obtain message where
    run: "HandlePacket ex_env 11 [2, 1, 7] (ex_relay 3) = Inr ((ex_relay 3)\<lparr>Router := Router (ex_relay 3) @ [message]\<rparr>)" and
    au: "Author message = ID (mem (ex_relay 3) 11)" and
    same: "\<forall>buffer' base'.
               ParseBaseMessage ex_env buffer' = (base', [7]) \<and> Type base' = Type ?b1 \<longrightarrow>
               HandlePacket ex_env 11 buffer' (ex_relay 3) = HandlePacket ex_env 11 [2, 1, 7] (ex_relay 3)"
    by blast
  from same p(2) t(2) have "HandlePacket ex_env 11 [2, 0, 7] (ex_relay 3) = HandlePacket ex_env 11 [2, 1, 7] (ex_relay 3)"
    by blast
  with run au show ?thesis
    by (simp add: p before)
qed

section \<open>The registry invariant and the binding\<close>

lemma RemoveClient_ok:
  assumes "registry_ok r"
  shows "\<exists>r'. RemoveClient c r = Inr r' \<and> registry_ok r' \<and>
           store r' = store r \<and> Router r' = Router r \<and> Bot r' = Bot r \<and>
           (\<forall>p. ID (mem r' p) = ID (mem r p) \<and> Hostname (mem r' p) = Hostname (mem r p) \<and>
                Socket (mem r' p) = Socket (mem r p))"
  using assms
  by (auto simp: RemoveClient_def close_chan_def registry_ok_def list_all_iff distinct_removeAll)

lemma registry_ok_cong:
  assumes "registry_ok r" and "Clients r' = Clients r"
    and "\<forall>p. Data (mem r' p) = Data (mem r p)"
  shows "registry_ok r'"
  using assms by (simp add: registry_ok_def list_all_iff)

lemma HandlePacket_ok:
  assumes "registry_ok r"
  shows "\<exists>r'. HandlePacket env c buffer r = Inr r' \<and> registry_ok r' \<and>
           (Authenticated (mem r c) \<longrightarrow> Authenticated (mem r' c)) \<and>
           (Type (fst (ParseBaseMessage env buffer)) \<noteq> MessageAuthenticate \<longrightarrow>
              ID (mem r' c) = ID (mem r c) \<and> Hostname (mem r' c) = Hostname (mem r c))"
proof (cases "ParseBaseMessage env buffer")
  case (Pair base reader)
  show ?thesis
  proof (cases "Type base = MessageAuthenticate")
    case True
    let ?am = "ParseAuthenticateMessage env base reader"
    show ?thesis
    proof (cases "Token ?am = [] \<or> auth_Hostname ?am = []")
      case True
      with Pair \<open>Type base = MessageAuthenticate\<close>
      have "HandlePacket env c buffer r = Inr (Socket_Write c (MarshalResponse env AuthenticateDenied) r)"
        by (auto simp: HandlePacket_def)
      moreover have "registry_ok (Socket_Write c (MarshalResponse env AuthenticateDenied) r)"
        by (rule registry_ok_cong [OF assms]) (simp_all add: Socket_Write_def)
      ultimately show ?thesis
        using Pair \<open>Type base = MessageAuthenticate\<close> by (simp add: Socket_Write_def Authenticated_def)
    next
      case False
      from AuthenticateClient_cases [of c ?am r] obtain r1 where
        a: "AuthenticateClient c ?am r = Inr r1" and
        cl: "Clients r1 = Clients r" "\<forall>p. Data (mem r1 p) = Data (mem r p)" and
        idc: "ID (mem r1 c) = ID (mem r c) \<or> ID (mem r1 c) = Token ?am"
        by auto
      from Pair \<open>Type base = MessageAuthenticate\<close> False a
      have run: "HandlePacket env c buffer r = Inr (Socket_Write c (MarshalResponse env AuthenticateSuccess) r1)"
        by (simp add: HandlePacket_def)
      have "registry_ok (Socket_Write c (MarshalResponse env AuthenticateSuccess) r1)"
        by (rule registry_ok_cong [OF assms]) (simp_all add: Socket_Write_def cl)
      with run idc False Pair \<open>Type base = MessageAuthenticate\<close> show ?thesis
        by (auto simp: Socket_Write_def Authenticated_def)
    qed
  next
    case False
    show ?thesis
    proof (cases "Authenticated (mem r c)")
      case False
      with Pair \<open>Type base \<noteq> MessageAuthenticate\<close> assms show ?thesis
        by (simp add: HandlePacket_def)
    next
      case True
      show ?thesis
      proof (cases "Type base = MessageChat \<or> Type base = MessageEvent")
        case True
        with Pair \<open>Authenticated (mem r c)\<close>
        have "\<exists>m. HandlePacket env c buffer r = Inr (r\<lparr>Router := Router r @ [m]\<rparr>)"
          by (auto simp: HandlePacket_def)
        then obtain m where run: "HandlePacket env c buffer r = Inr (r\<lparr>Router := Router r @ [m]\<rparr>)" ..
        have "registry_ok (r\<lparr>Router := Router r @ [m]\<rparr>)"
          by (rule registry_ok_cong [OF assms]) simp_all
        with run show ?thesis by simp
      next
        case other: False
        from RemoveClient_ok [OF assms, of c] obtain r1 where
          rm: "RemoveClient c r = Inr r1" and ok1: "registry_ok r1" and
          same: "\<forall>p. ID (mem r1 p) = ID (mem r p) \<and> Hostname (mem r1 p) = Hostname (mem r p)"
          by blast
        from Pair \<open>Type base \<noteq> MessageAuthenticate\<close> True other rm
        have run: "HandlePacket env c buffer r = Inr (Socket_Close c r1)"
          by (cases "Type base") (simp_all add: HandlePacket_def)
        have "registry_ok (Socket_Close c r1)"
          by (rule registry_ok_cong [OF ok1]) (simp_all add: Socket_Close_def)
        with run same True show ?thesis
          by (simp add: Socket_Close_def Authenticated_def)
      qed
    qed
  qed
qed

lemma ListenClientReceive_ok:
  assumes "registry_ok r"
  shows "\<exists>r'. ListenClientReceive env c reads r = Inr r' \<and> registry_ok r' \<and>
           (Authenticated (mem r c) \<longrightarrow> Authenticated (mem r' c)) \<and>
           ((\<forall>buffer. Some buffer \<in> set reads \<longrightarrow>
               Type (fst (ParseBaseMessage env buffer)) \<noteq> MessageAuthenticate) \<longrightarrow>
            ID (mem r' c) = ID (mem r c) \<and> Hostname (mem r' c) = Hostname (mem r c))"
  using assms
proof (induction reads arbitrary: r)
  case Nil
  then show ?case by simp
next
  case (Cons read reads)
  let ?outcome = "if conn_closed (Socket (mem r c)) then None else read"
  show ?case
  proof (cases ?outcome)
    case None
    from RemoveClient_ok [OF Cons.prems, of c] obtain r1 where
      rm: "RemoveClient c r = Inr r1" and ok1: "registry_ok r1" and
      same: "\<forall>p. ID (mem r1 p) = ID (mem r p) \<and> Hostname (mem r1 p) = Hostname (mem r p)"
      by blast
    have "registry_ok (Socket_Close c r1)"
      by (rule registry_ok_cong [OF ok1]) (simp_all add: Socket_Close_def)
    with None rm same show ?thesis
      by (simp add: Socket_Close_def Authenticated_def)
  next
    case (Some buffer)
    then have rd: "read = Some buffer" by (simp split: if_splits)
    show ?thesis
    proof (cases "0 < length buffer")
      case False
      with Some Cons.IH [OF Cons.prems] show ?thesis by auto
    next
      case True
      from HandlePacket_ok [OF Cons.prems, of env c buffer] obtain r1 where
        hp: "HandlePacket env c buffer r = Inr r1" and ok1: "registry_ok r1" and
        au: "Authenticated (mem r c) \<longrightarrow> Authenticated (mem r1 c)" and
        keep: "Type (fst (ParseBaseMessage env buffer)) \<noteq> MessageAuthenticate \<longrightarrow>
              ID (mem r1 c) = ID (mem r c) \<and> Hostname (mem r1 c) = Hostname (mem r c)"
        by blast
      from Cons.IH [OF ok1] obtain r' where
        run: "ListenClientReceive env c reads r1 = Inr r'" and ok': "registry_ok r'" and
        au': "Authenticated (mem r1 c) \<longrightarrow> Authenticated (mem r' c)" and
        keep': "(\<forall>buffer. Some buffer \<in> set reads \<longrightarrow>
               Type (fst (ParseBaseMessage env buffer)) \<noteq> MessageAuthenticate) \<longrightarrow>
            ID (mem r' c) = ID (mem r1 c) \<and> Hostname (mem r' c) = Hostname (mem r1 c)"
        by blast
      have 1: "ListenClientReceive env c (read # reads) r = Inr r'"
        using Some True hp run by simp
      have 2: "(\<forall>buffer. Some buffer \<in> set (read # reads) \<longrightarrow>
               Type (fst (ParseBaseMessage env buffer)) \<noteq> MessageAuthenticate) \<longrightarrow>
            ID (mem r' c) = ID (mem r c) \<and> Hostname (mem r' c) = Hostname (mem r c)"
        using keep keep' rd by simp
      from 1 2 ok' au au' show ?thesis by blast
    qed
  qed
qed

text \<open>
  C6 (amended). Once a connection is authenticated, it stays authenticated through
  every later read of its receive loop, whatever the frames are; and as long as none
  of the later frames is an Authenticate frame, its bound identity id and hostname
  stay what they were.
\<close>
theorem binding_after_authentication:
  assumes "registry_ok r" and "Authenticated (mem r c)"
  shows "\<exists>r'. ListenClientReceive env c reads r = Inr r' \<and>
           Authenticated (mem r' c) \<and>
           ((\<forall>buffer. Some buffer \<in> set reads \<longrightarrow>
               Type (fst (ParseBaseMessage env buffer)) \<noteq> MessageAuthenticate) \<longrightarrow>
            ID (mem r' c) = ID (mem r c) \<and> Hostname (mem r' c) = Hostname (mem r c))"
  using ListenClientReceive_ok [OF assms(1), of env c reads] assms(2) by blast

theorem binding_after_authentication_witness:
  "ID (mem (projr (ListenClientReceive ex_env 10 [Some [2, 0, 7], Some [], Some [9, 0]] (ex_relay 3))) 10) = ''tok1'' \<and>
   Authenticated (mem (projr (ListenClientReceive ex_env 10 [Some [1, 0, 2, 2], None] (ex_relay 3))) 10)"
proof -
  have a: "Authenticated (mem (ex_relay 3) 10)" "ID (mem (ex_relay 3) 10) = ''tok1''"
    by (simp_all add: Authenticated_def ex_relay_def ex_client_def)
  have n: "\<forall>buffer. Some buffer \<in> set [Some [2, 0, 7], Some [], Some [9, 0]] \<longrightarrow>
               Type (fst (ParseBaseMessage ex_env buffer)) \<noteq> MessageAuthenticate"
    by (auto simp: ex_env_def)
  from binding_after_authentication [OF ex_registry_ok a(1), of ex_env "[Some [2, 0, 7], Some [], Some [9, 0]]"] n
  obtain r1 where "ListenClientReceive ex_env 10 [Some [2, 0, 7], Some [], Some [9, 0]] (ex_relay 3) = Inr r1"
    "ID (mem r1 10) = ID (mem (ex_relay 3) 10)"
    by blast
  then have 1: "ID (mem (projr (ListenClientReceive ex_env 10 [Some [2, 0, 7], Some [], Some [9, 0]] (ex_relay 3))) 10) = ''tok1''"
    by (simp add: a)
  from binding_after_authentication [OF ex_registry_ok a(1), of ex_env "[Some [1, 0, 2, 2], None]"]
  obtain r2 where "ListenClientReceive ex_env 10 [Some [1, 0, 2, 2], None] (ex_relay 3) = Inr r2"
    "Authenticated (mem r2 10)"
    by blast
  then have 2: "Authenticated (mem (projr (ListenClientReceive ex_env 10 [Some [1, 0, 2, 2], None] (ex_relay 3))) 10)"
    by simp
  from 1 2 show ?thesis by simp
qed

text \<open>
  The binding is not immutable: an Authenticate frame with another token, handled on
  a connection bound to \<open>tok1\<close>, binds it to \<open>tok2\<close>.
\<close>

theorem rebinding_counterexample:
  "Authenticated (mem (ex_relay 3) 10) \<and>
   ID (mem (ex_relay 3) 10) = ''tok1'' \<and>
   Type (fst (ParseBaseMessage ex_env [1, 0, 2, 2])) = MessageAuthenticate \<and>
   Token (ParseAuthenticateMessage ex_env (fst (ParseBaseMessage ex_env [1, 0, 2, 2]))
            (snd (ParseBaseMessage ex_env [1, 0, 2, 2]))) = ''tok2'' \<and>
   \<not> isl (HandlePacket ex_env 10 [1, 0, 2, 2] (ex_relay 3)) \<and>
   ID (mem (projr (HandlePacket ex_env 10 [1, 0, 2, 2] (ex_relay 3))) 10) = ''tok2'' \<and>
   Hostname (mem (projr (HandlePacket ex_env 10 [1, 0, 2, 2] (ex_relay 3))) 10) = ''srvB''"
  by (simp add: HandlePacket_def AuthenticateClient_def AuthenticateClient_bind_def GetEntity_def
      SetDisplayName_def Socket_Write_def conn_Write_def Authenticated_def
      ex_env_def ex_relay_def ex_client_def ex_db_def ex_rec1_def ex_rec2_def ex_rec3_def)

section \<open>The registry invariant along the routing loop\<close>

lemma registry_ok_NewRelay: "registry_ok (NewRelay h d)"
  by (simp add: registry_ok_def NewRelay_def)

lemma registry_ok_AddClient:
  "registry_ok r \<Longrightarrow> \<not> closed (Data (mem r c)) \<Longrightarrow> registry_ok (AddClient c r)"
  by (simp add: registry_ok_def AddClient_def list_all_iff)

lemma registry_ok_accept:
  assumes "registry_ok r" and "c \<notin> set (Clients r)"
  shows "registry_ok (ProcessConnections_accept c r) \<and>
         \<not> Authenticated (mem (ProcessConnections_accept c r) c)"
  using assms
  by (auto simp: registry_ok_def ProcessConnections_accept_def AddClient_def make_chan_def
      Authenticated_def list_all_iff)

lemma registry_ok_StartRouting_case:
  assumes "registry_ok r" and "StartRouting_case env message r = Continue r'"
  shows "registry_ok r'"
proof (cases "IsInFilter env (Content message)")
  case True
  with assms(2) show ?thesis by (simp add: StartRouting_case_def)
next
  case False
  from StartRouting_case_char [OF assms(1) False] assms(2) have
    m: "\<forall>p. mem r' p = (if p \<in> set (Clients r) then visit env message (store r) (mem r p) else mem r p)" and
    cl: "Clients r' = filter (\<lambda>p. \<not> evicted env message (store r) (mem r p)) (Clients r)"
    by auto
  from assms(1) have d: "distinct (Clients r)" and o: "\<forall>c\<in>set (Clients r). \<not> closed (Data (mem r c))"
    by (simp_all add: registry_ok_def list_all_iff)
  show ?thesis
    using d o by (auto simp: registry_ok_def list_all_iff m cl visit_def evicted_def)
qed

text \<open>
  As long as no message matches the filter, the loop handles every waiting message,
  in order, evictions or not, and is then waiting for the next one.
\<close>

lemma StartRouting_loop_unfiltered:
  assumes "registry_ok r" and "\<forall>message\<in>set waiting. \<not> IsInFilter env (Content message)"
  shows "\<exists>r'. StartRouting_loop env waiting r = Blocked r' \<and> registry_ok r' \<and>
           Router r' = (if waiting = [] then Router r else []) \<and> Bot r' = Bot r @ waiting"
  using assms
proof (induction waiting arbitrary: r)
  case Nil
  then show ?case by simp
next
  case (Cons message waiting)
  let ?r0 = "r\<lparr>Router := waiting\<rparr>"
  have ok0: "registry_ok ?r0"
    by (rule registry_ok_cong [OF Cons.prems(1)]) simp_all
  from Cons.prems(2) have nf: "\<not> IsInFilter env (Content message)" by simp
  from StartRouting_case_char [OF ok0 nf] obtain r1 where
    run: "StartRouting_case env message ?r0 = Continue r1" and
    rt: "Router r1 = Router ?r0" and bot: "Bot r1 = Bot ?r0 @ [message]"
    by blast
  from registry_ok_StartRouting_case [OF ok0 run] have ok1: "registry_ok r1" .
  from Cons.IH [OF ok1] Cons.prems(2) obtain r' where
    "StartRouting_loop env waiting r1 = Blocked r'" "registry_ok r'"
    "Router r' = (if waiting = [] then Router r1 else [])" "Bot r' = Bot r1 @ waiting"
    by auto
  with run rt bot show ?case by auto
qed

end
